theory Spec2Isabelle
  imports Main "HOL-Library.Word"
begin

unbundle bit_operations_syntax

section \<open>Template parameters\<close>

text \<open>
  \<^verbatim>\<open>riscv-tlb.h\<close> holds two templates, \<^verbatim>\<open>tagged_tlb_entry<PARAM>\<close> and
  \<^verbatim>\<open>tagged_tlb<tlb_size, PARAM>\<close>. The address type \<^verbatim>\<open>PARAM::UX\<close> is the word type
  \<open>'a word\<close>; the types \<^verbatim>\<open>pdid_t\<close> and \<^verbatim>\<open>pma_t\<close>, declared outside the header, are the
  unsigned word types \<open>'p word\<close> and \<open>'m word\<close> of any width. The compile-time constants
  \<^verbatim>\<open>tlb_size\<close>, \<^verbatim>\<open>PARAM::asid_bits\<close>, \<^verbatim>\<open>PARAM::ppn_bits\<close> and \<^verbatim>\<open>page_shift\<close> (also
  declared outside the header) are the fields of a record that every operation takes.
\<close>

record param =
  tlb_size :: nat
  asid_bits :: nat
  ppn_bits :: nat
  page_shift :: nat

text \<open>
  Modelled from the spec: \<^verbatim>\<open>ispow2\<close> and \<^verbatim>\<open>ctz_pow2\<close> are helpers of the repository that
  are not in the header. The spec says the capacity must be a power of two and that
  \<open>index_shift = log2(capacity)\<close>.
\<close>

fun ctz_pow2 :: "nat \<Rightarrow> nat" where
  "ctz_pow2 n = (if n \<le> 1 then 0 else Suc (ctz_pow2 (n div 2)))"

fun ispow2 :: "nat \<Rightarrow> bool" where
  "ispow2 n = (if n \<le> 1 then n = 1 else even n \<and> ispow2 (n div 2))"

text \<open>
  The limits and the index mask are written \<^verbatim>\<open>(1ULL << n) - 1\<close> in enumerations of
  underlying type \<^verbatim>\<open>UX\<close>: the computation is done on 64 bits and the result converted.
\<close>

definition ull_ones :: "nat \<Rightarrow> 'a::len word" where
  "ull_ones n = ucast (push_bit n (1 :: 64 word) - 1)"

section \<open>tagged\_tlb\_entry\<close>

definition vpn_bits :: "'a::len itself \<Rightarrow> param \<Rightarrow> nat" where
  "vpn_bits ux cfg = LENGTH('a) - page_shift cfg"

definition pte_bits :: "param \<Rightarrow> nat" where
  "pte_bits cfg = page_shift cfg"

definition ppn_limit :: "param \<Rightarrow> 'a::len word" where
  "ppn_limit cfg = ull_ones (ppn_bits cfg)"

definition asid_limit :: "param \<Rightarrow> 'a::len word" where
  "asid_limit cfg = ull_ones (asid_bits cfg)"

definition vpn_limit :: "param \<Rightarrow> 'a::len word" where
  "vpn_limit cfg = ull_ones (vpn_bits TYPE('a) cfg)"

text \<open>The two static assertions of the header.\<close>

definition static_asserts :: "param \<Rightarrow> bool" where
  "static_asserts cfg \<longleftrightarrow>
     (asid_bits cfg + ppn_bits cfg = 32 \<or> asid_bits cfg + ppn_bits cfg = 64 \<or>
      asid_bits cfg + ppn_bits cfg = 128) \<and> ispow2 (tlb_size cfg)"

text \<open>
  The four bit-fields have the declared type \<^verbatim>\<open>UX\<close> and hold a value below two to the
  power of their width; \<^verbatim>\<open>pdid\<close> and \<^verbatim>\<open>pma\<close> are whole objects of their own types.
\<close>

record (overloaded) ('a, 'p, 'm) tagged_tlb_entry =
  ppn :: "'a word"
  asid :: "'a word"
  vpn :: "'a word"
  pteb :: "'a word"
  pdid :: "'p word"
  pma :: "'m word"

text \<open>
  The default constructor \<^verbatim>\<open>tagged_tlb_entry()\<close>. Storing into a bit-field of width
  \<open>n\<close> keeps the low \<open>n\<close> bits.
\<close>

definition tagged_tlb_entry_0 ::
  "param \<Rightarrow> ('a::len, 'p::len, 'm::len) tagged_tlb_entry" where
  "tagged_tlb_entry_0 cfg =
     \<lparr> ppn = take_bit (ppn_bits cfg) (ppn_limit cfg),
       asid = take_bit (asid_bits cfg) (asid_limit cfg),
       vpn = take_bit (vpn_bits TYPE('a) cfg) (vpn_limit cfg),
       pteb = take_bit (pte_bits cfg) 0,
       pdid = 0,
       pma = 0 \<rparr>"

text \<open>
  The constructor \<^verbatim>\<open>tagged_tlb_entry(UX pdid, UX asid, UX vpn, UX pteb, UX ppn)\<close>. The
  conversion of \<^verbatim>\<open>pdid\<close> from \<^verbatim>\<open>UX\<close> to \<^verbatim>\<open>pdid_t\<close> is \<open>ucast\<close>.
\<close>

definition tagged_tlb_entry_5 ::
  "param \<Rightarrow> 'a word \<Rightarrow> 'a word \<Rightarrow> 'a word \<Rightarrow> 'a word \<Rightarrow> 'a word \<Rightarrow>
   ('a::len, 'p::len, 'm::len) tagged_tlb_entry" where
  "tagged_tlb_entry_5 cfg pdid' asid' vpn' pteb' ppn' =
     \<lparr> ppn = take_bit (ppn_bits cfg) ppn',
       asid = take_bit (asid_bits cfg) asid',
       vpn = take_bit (vpn_bits TYPE('a) cfg) vpn',
       pteb = take_bit (pte_bits cfg) pteb',
       pdid = ucast pdid',
       pma = 0 \<rparr>"

section \<open>tagged\_tlb\<close>

definition size_tlb :: "param \<Rightarrow> nat" where
  "size_tlb cfg = tlb_size cfg"

definition shift_tlb :: "param \<Rightarrow> nat" where
  "shift_tlb cfg = ctz_pow2 (size_tlb cfg)"

definition mask_tlb :: "param \<Rightarrow> 'a::len word" where
  "mask_tlb cfg = ull_ones (shift_tlb cfg)"

text \<open>The member array \<^verbatim>\<open>tlb_entry_t tlb[size]\<close> is the whole state of the cache.\<close>

type_synonym ('a, 'p, 'm) tagged_tlb = "('a, 'p, 'm) tagged_tlb_entry list"

text \<open>\<^verbatim>\<open>void flush()\<close>: the loop, from the counter \<open>i\<close> on.\<close>

function flush_loop ::
  "param \<Rightarrow> nat \<Rightarrow> ('a::len, 'p::len, 'm::len) tagged_tlb \<Rightarrow> ('a, 'p, 'm) tagged_tlb" where
  "flush_loop cfg i t =
     (if i < size_tlb cfg
      then flush_loop cfg (Suc i) (t[i := tagged_tlb_entry_0 cfg])
      else t)"
  by pat_completeness auto
termination
  by (relation "measure (\<lambda>(cfg, i, t). size_tlb cfg - i)") auto

definition flush ::
  "param \<Rightarrow> ('a::len, 'p::len, 'm::len) tagged_tlb \<Rightarrow> ('a, 'p, 'm) tagged_tlb" where
  "flush cfg t = flush_loop cfg 0 t"

text \<open>\<^verbatim>\<open>void flush(UX asid)\<close>: an entry with another \<^verbatim>\<open>asid\<close> is skipped.\<close>

function flush_asid_loop ::
  "param \<Rightarrow> 'a word \<Rightarrow> nat \<Rightarrow> ('a::len, 'p::len, 'm::len) tagged_tlb \<Rightarrow>
   ('a, 'p, 'm) tagged_tlb" where
  "flush_asid_loop cfg asid' i t =
     (if i < size_tlb cfg
      then (if asid (t ! i) \<noteq> asid'
            then flush_asid_loop cfg asid' (Suc i) t
            else flush_asid_loop cfg asid' (Suc i) (t[i := tagged_tlb_entry_0 cfg]))
      else t)"
  by pat_completeness auto
termination
  by (relation "measure (\<lambda>(cfg, a, i, t). size_tlb cfg - i)") auto

definition flush_asid ::
  "param \<Rightarrow> 'a word \<Rightarrow> ('a::len, 'p::len, 'm::len) tagged_tlb \<Rightarrow> ('a, 'p, 'm) tagged_tlb" where
  "flush_asid cfg asid' t = flush_asid_loop cfg asid' 0 t"

text \<open>
  The constructor \<^verbatim>\<open>tagged_tlb() { flush(); }\<close>: the elements of the array are
  default-constructed, then the body runs.
\<close>

definition tagged_tlb :: "param \<Rightarrow> ('a::len, 'p::len, 'm::len) tagged_tlb" where
  "tagged_tlb cfg = flush cfg (replicate (size_tlb cfg) (tagged_tlb_entry_0 cfg))"

text \<open>
  \<^verbatim>\<open>lookup\<close> returns \<^verbatim>\<open>tlb + i\<close> or \<^verbatim>\<open>nullptr\<close>: the model returns the offset \<open>i\<close> of
  the pointer, or \<open>None\<close>, together with the array after the call. The comparison of the
  \<^verbatim>\<open>pdid_t\<close> field with the \<^verbatim>\<open>UX\<close> argument converts both to the wider of the two
  unsigned types, so it compares their values.
\<close>

definition lookup ::
  "param \<Rightarrow> 'a word \<Rightarrow> 'a word \<Rightarrow> 'a word \<Rightarrow> ('a::len, 'p::len, 'm::len) tagged_tlb \<Rightarrow>
   nat option \<times> ('a, 'p, 'm) tagged_tlb" where
  "lookup cfg pdid' asid' va t =
     (let vpn' = drop_bit (page_shift cfg) va;
          i = unat (vpn' AND mask_tlb cfg)
      in (if unat (pdid (t ! i)) = unat pdid' \<and> asid (t ! i) = asid' \<and> vpn (t ! i) = vpn'
          then Some i else None, t))"

text \<open>\<^verbatim>\<open>insert\<close> overwrites the entry at the index of the page.\<close>

definition insert_tlb ::
  "param \<Rightarrow> 'a word \<Rightarrow> 'a word \<Rightarrow> 'a word \<Rightarrow> 'a word \<Rightarrow> 'a word \<Rightarrow>
   ('a::len, 'p::len, 'm::len) tagged_tlb \<Rightarrow> ('a, 'p, 'm) tagged_tlb" where
  "insert_tlb cfg pdid' asid' va pteb' ppn' t =
     (let vpn' = drop_bit (page_shift cfg) va;
          i = unat (vpn' AND mask_tlb cfg)
      in t[i := tagged_tlb_entry_5 cfg pdid' asid' vpn' pteb' ppn'])"

text \<open>
  The page number and the index that \<^verbatim>\<open>lookup\<close> and \<^verbatim>\<open>insert\<close> compute from a
  virtual address, for the statements below.
\<close>

abbreviation va_vpn :: "param \<Rightarrow> 'a::len word \<Rightarrow> 'a word" where
  "va_vpn cfg va \<equiv> drop_bit (page_shift cfg) va"

abbreviation va_index :: "param \<Rightarrow> 'a::len word \<Rightarrow> nat" where
  "va_index cfg va \<equiv> unat (drop_bit (page_shift cfg) va AND mask_tlb cfg)"

text \<open>
  The states of a cache: the constructor, then any sequence of calls of \<^verbatim>\<open>insert\<close>,
  \<^verbatim>\<open>flush()\<close> and \<^verbatim>\<open>flush(asid)\<close>.
\<close>

inductive reachable ::
  "param \<Rightarrow> ('a::len, 'p::len, 'm::len) tagged_tlb \<Rightarrow> bool" for cfg :: param where
  r_new: "reachable cfg (tagged_tlb cfg)"
| r_insert: "reachable cfg t \<Longrightarrow> reachable cfg (insert_tlb cfg pdid' asid' va pteb' ppn' t)"
| r_flush: "reachable cfg t \<Longrightarrow> reachable cfg (flush cfg t)"
| r_flush_asid: "reachable cfg t \<Longrightarrow> reachable cfg (flush_asid cfg asid' t)"

text \<open>
  An instantiation that passes both static assertions, for the concrete runs: four
  entries, 32-bit addresses with pages of 4096 bytes, \<open>10 + 22 = 32\<close> bits of
  \<^verbatim>\<open>asid\<close> and \<^verbatim>\<open>ppn\<close>, and 32-bit \<^verbatim>\<open>pdid_t\<close> and \<^verbatim>\<open>pma_t\<close>.
\<close>

definition rv32_4 :: param where
  "rv32_4 = \<lparr> tlb_size = 4, asid_bits = 10, ppn_bits = 22, page_shift = 12 \<rparr>"

type_synonym tlb32 = "(32, 32, 32) tagged_tlb"

text \<open>A cache of that instantiation holding two pages of two address spaces.\<close>

definition two_pages :: tlb32 where
  "two_pages = insert_tlb rv32_4 2 5 0x2000 1 0x10
                 (insert_tlb rv32_4 1 7 0x1000 7 0x55 (tagged_tlb rv32_4))"

section \<open>Basic facts\<close>

text \<open>
  The equations of the recursive functions are unconditional, so they are unfolded by
  hand only.
\<close>

declare ctz_pow2.simps [simp del] ispow2.simps [simp del]
declare flush_loop.simps [simp del] flush_asid_loop.simps [simp del]

lemma ctz_pow2_small: "n \<le> 1 \<Longrightarrow> ctz_pow2 n = 0"
  by (subst ctz_pow2.simps) simp

lemma ctz_pow2_step: "1 < n \<Longrightarrow> ctz_pow2 n = Suc (ctz_pow2 (n div 2))"
  by (subst ctz_pow2.simps) simp

lemma ispow2_exp: "ispow2 n \<Longrightarrow> 2 ^ ctz_pow2 n = n"
proof (induction n rule: ispow2.induct)
  case (1 n)
  show ?case
  proof (cases "n \<le> 1")
    case True
    with "1.prems" have "n = 1" by (simp add: ispow2.simps[of n])
    then show ?thesis by (simp add: ctz_pow2_small)
  next
    case False
    with "1.prems" have e: "even n" and p: "ispow2 (n div 2)"
      by (simp_all add: ispow2.simps[of n])
    from "1.IH" False p have "2 ^ ctz_pow2 (n div 2) = n div 2" by simp
    with e False show ?thesis by (simp add: ctz_pow2_step)
  qed
qed

text \<open>\<^verbatim>\<open>(1ULL << n) - 1\<close> has the low \<open>n\<close> bits set, at most 64 of them.\<close>

lemma ull_ones_mask: "(ull_ones n :: 'a::len word) = mask (min n 64)"
proof -
  have "push_bit n (1 :: 64 word) - 1 = mask n"
    by (simp add: mask_eq_exp_minus_1)
  then show ?thesis
    unfolding ull_ones_def
    by (auto intro!: bit_eqI simp add: bit_simps)
qed

text \<open>
  The index is inside the array: no access of \<^verbatim>\<open>lookup\<close> or \<^verbatim>\<open>insert\<close> is out of
  range when the size is a power of two.
\<close>

lemma index_lt_size:
  assumes "ispow2 (tlb_size cfg)"
  shows "unat ((w :: 'a::len word) AND mask_tlb cfg) < tlb_size cfg"
proof -
  let ?s = "ctz_pow2 (tlb_size cfg)"
  have "unat (w AND mask (min ?s 64)) < 2 ^ min ?s 64"
    by (simp flip: take_bit_eq_mask add: unsigned_take_bit_eq)
  also have "(2::nat) ^ min ?s 64 \<le> 2 ^ ?s"
    by (rule power_increasing) simp_all
  also have "\<dots> = tlb_size cfg"
    by (rule ispow2_exp [OF assms])
  finally show ?thesis
    by (simp add: mask_tlb_def shift_tlb_def size_tlb_def ull_ones_mask)
qed

text \<open>A page number always fits the \<^verbatim>\<open>vpn\<close> field, whose width is the rest of the address.\<close>

lemma vpn_fits:
  "take_bit (vpn_bits TYPE('a) cfg) (drop_bit (page_shift cfg) (va :: 'a::len word)) =
   drop_bit (page_shift cfg) va"
  by (rule bit_eqI) (auto simp add: bit_simps vpn_bits_def dest: bit_imp_le_length)

subsection \<open>The two loops\<close>

lemma length_flush_loop [simp]: "length (flush_loop cfg i t) = length t"
  by (induction cfg i t rule: flush_loop.induct) (subst flush_loop.simps, simp)

lemma nth_flush_loop:
  "j < length t \<Longrightarrow>
   flush_loop cfg i t ! j =
     (if i \<le> j \<and> j < size_tlb cfg then tagged_tlb_entry_0 cfg else t ! j)"
proof (induction cfg i t rule: flush_loop.induct)
  case (1 cfg i t)
  show ?case
  proof (cases "i < size_tlb cfg")
    case True
    with "1.IH" "1.prems"
    have "flush_loop cfg (Suc i) (t[i := tagged_tlb_entry_0 cfg]) ! j =
          (if Suc i \<le> j \<and> j < size_tlb cfg then tagged_tlb_entry_0 cfg
           else t[i := tagged_tlb_entry_0 cfg] ! j)"
      by simp
    with True "1.prems" show ?thesis
      by (subst flush_loop.simps) (auto simp add: nth_list_update)
  next
    case False
    then show ?thesis by (subst flush_loop.simps) auto
  qed
qed

lemma length_flush_asid_loop [simp]: "length (flush_asid_loop cfg a i t) = length t"
  by (induction cfg a i t rule: flush_asid_loop.induct) (subst flush_asid_loop.simps, simp)

lemma nth_flush_asid_loop:
  "j < length t \<Longrightarrow>
   flush_asid_loop cfg a i t ! j =
     (if i \<le> j \<and> j < size_tlb cfg \<and> asid (t ! j) = a then tagged_tlb_entry_0 cfg
      else t ! j)"
proof (induction cfg a i t rule: flush_asid_loop.induct)
  case (1 cfg a i t)
  show ?case
  proof (cases "i < size_tlb cfg")
    case False
    then show ?thesis by (subst flush_asid_loop.simps) auto
  next
    case True
    show ?thesis
    proof (cases "asid (t ! i) = a")
      case False
      with "1.IH"(1) True "1.prems"
      have "flush_asid_loop cfg a (Suc i) t ! j =
            (if Suc i \<le> j \<and> j < size_tlb cfg \<and> asid (t ! j) = a
             then tagged_tlb_entry_0 cfg else t ! j)"
        by simp
      with True False show ?thesis
        by (subst flush_asid_loop.simps) (cases "j = i"; auto)
    next
      case eq: True
      let ?t = "t[i := tagged_tlb_entry_0 cfg]"
      from "1.IH"(2) True eq "1.prems"
      have "flush_asid_loop cfg a (Suc i) ?t ! j =
            (if Suc i \<le> j \<and> j < size_tlb cfg \<and> asid (?t ! j) = a
             then tagged_tlb_entry_0 cfg else ?t ! j)"
        by simp
      with True eq "1.prems" show ?thesis
        by (subst flush_asid_loop.simps) (cases "j = i"; auto)
    qed
  qed
qed

subsection \<open>The operations, entry by entry\<close>

lemma length_flush [simp]: "length (flush cfg t) = length t"
  by (simp add: flush_def)

lemma nth_flush:
  "length t = tlb_size cfg \<Longrightarrow> j < tlb_size cfg \<Longrightarrow> flush cfg t ! j = tagged_tlb_entry_0 cfg"
  by (simp add: flush_def nth_flush_loop size_tlb_def)

lemma length_flush_asid [simp]: "length (flush_asid cfg a t) = length t"
  by (simp add: flush_asid_def)

lemma nth_flush_asid:
  "length t = tlb_size cfg \<Longrightarrow> j < tlb_size cfg \<Longrightarrow>
   flush_asid cfg a t ! j = (if asid (t ! j) = a then tagged_tlb_entry_0 cfg else t ! j)"
  by (simp add: flush_asid_def nth_flush_asid_loop size_tlb_def)

lemma length_tagged_tlb [simp]: "length (tagged_tlb cfg) = tlb_size cfg"
  by (simp add: tagged_tlb_def size_tlb_def)

lemma nth_tagged_tlb: "j < tlb_size cfg \<Longrightarrow> tagged_tlb cfg ! j = tagged_tlb_entry_0 cfg"
  by (simp add: tagged_tlb_def nth_flush size_tlb_def)

lemma length_insert_tlb [simp]: "length (insert_tlb cfg p a va b n t) = length t"
  by (simp add: insert_tlb_def Let_def)

lemma nth_insert_tlb:
  "j < length t \<Longrightarrow>
   insert_tlb cfg p a va b n t ! j =
     (if j = va_index cfg va then tagged_tlb_entry_5 cfg p a (va_vpn cfg va) b n else t ! j)"
  by (simp add: insert_tlb_def Let_def nth_list_update)

lemma fst_lookup:
  "fst (lookup cfg p a va t) =
     (if unat (pdid (t ! va_index cfg va)) = unat p \<and> asid (t ! va_index cfg va) = a \<and>
         vpn (t ! va_index cfg va) = va_vpn cfg va
      then Some (va_index cfg va) else None)"
  by (simp add: lookup_def Let_def)

text \<open>A value is kept by a bit-field exactly when it is below two to the power of the width.\<close>

lemma take_bit_fits: "take_bit k (w :: 'a::len word) = w \<longleftrightarrow> unat w < 2 ^ k"
proof -
  have "take_bit k w = w \<longleftrightarrow> unat (take_bit k w) = unat w"
    by (simp add: word_unat_eq_iff)
  also have "\<dots> \<longleftrightarrow> unat w < 2 ^ k"
    by (simp add: unsigned_take_bit_eq take_bit_nat_eq_self_iff)
  finally show ?thesis .
qed

lemma unat_take_bit_mod: "unat (take_bit k (w :: 'a::len word)) = unat w mod 2 ^ k"
  unfolding unsigned_take_bit_eq by (rule take_bit_eq_mod)

lemma unat_ucast_fits:
  "unat (ucast (w :: 'a::len word) :: 'p::len word) = unat w \<longleftrightarrow> unat w < 2 ^ LENGTH('p)"
  by (simp add: unsigned_ucast_eq take_bit_nat_eq_self_iff)

lemma take_bit_ull_ones: "take_bit k (ull_ones k :: 'a::len word) = ull_ones k"
  by (rule bit_eqI) (simp add: ull_ones_mask bit_simps)

lemma sentinel_fields:
  "(tagged_tlb_entry_0 cfg :: ('a::len, 'p::len, 'm::len) tagged_tlb_entry) =
     \<lparr> ppn = ppn_limit cfg, asid = asid_limit cfg, vpn = vpn_limit cfg,
       pteb = 0, pdid = 0, pma = 0 \<rparr>"
  by (simp add: tagged_tlb_entry_0_def ppn_limit_def asid_limit_def vpn_limit_def
      take_bit_ull_ones)


text \<open>
  A lookup whose slot holds the default-constructed entry compares the key with the
  fields of that entry: \<^verbatim>\<open>pdid\<close> zero, \<^verbatim>\<open>asid\<close> and \<^verbatim>\<open>vpn\<close> at their limits.
\<close>

lemma lookup_sentinel_iff:
  fixes t :: "('a::len, 'p::len, 'm::len) tagged_tlb"
  assumes "t ! va_index cfg va = tagged_tlb_entry_0 cfg"
  shows "fst (lookup cfg p a va t) =
           (if p = 0 \<and> a = asid_limit cfg \<and> va_vpn cfg va = vpn_limit cfg
            then Some (va_index cfg va) else None)"
  unfolding fst_lookup assms
  by (auto simp add: sentinel_fields unat_eq_0)

lemma reachable_length: "reachable cfg t \<Longrightarrow> length t = tlb_size cfg"
  by (induction rule: reachable.induct) simp_all

subsection \<open>The instantiation of the concrete runs\<close>

lemma rv32_4_static_asserts: "static_asserts rv32_4"
  by code_simp

lemma ctz_pow2_4: "ctz_pow2 4 = 2"
  by code_simp

section \<open>The claims\<close>

text \<open>
  Claim C1 (round trip), as amended. The claim says that after
  \<^verbatim>\<open>insert(pdid, asid, va, pteb, ppn)\<close> the call \<^verbatim>\<open>lookup(pdid, asid, va)\<close> hits, and that
  the entry has \<^verbatim>\<open>ppn\<close> and \<^verbatim>\<open>pteb\<close> as given, for every argument. The fields are
  bit-fields: the lookup hits exactly when \<^verbatim>\<open>asid\<close> is below \<open>2 ^ asid_bits\<close> and
  \<^verbatim>\<open>pdid\<close> is a value of \<^verbatim>\<open>pdid_t\<close> (always so when \<^verbatim>\<open>pdid_t\<close> is as wide as
  \<^verbatim>\<open>UX\<close>), and the entry at the index holds \<^verbatim>\<open>ppn\<close> modulo \<open>2 ^ ppn_bits\<close> and
  \<^verbatim>\<open>pteb\<close> modulo \<open>2 ^ page_shift\<close>, which are the arguments when they fit.
\<close>

theorem insert_lookup_roundtrip:
  fixes t :: "('a::len, 'p::len, 'm::len) tagged_tlb"
  assumes "ispow2 (tlb_size cfg)" and "length t = tlb_size cfg"
  shows "fst (lookup cfg pdid' asid' va (insert_tlb cfg pdid' asid' va pteb' ppn' t)) =
           (if unat asid' < 2 ^ asid_bits cfg \<and> unat pdid' < 2 ^ LENGTH('p)
            then Some (va_index cfg va) else None) \<and>
         unat (ppn (insert_tlb cfg pdid' asid' va pteb' ppn' t ! va_index cfg va)) =
           unat ppn' mod 2 ^ ppn_bits cfg \<and>
         unat (pteb (insert_tlb cfg pdid' asid' va pteb' ppn' t ! va_index cfg va)) =
           unat pteb' mod 2 ^ page_shift cfg"
proof -
  let ?t = "insert_tlb cfg pdid' asid' va pteb' ppn' t"
  have "va_index cfg va < length t"
    using index_lt_size [OF assms(1)] assms(2) by simp
  then have e: "?t ! va_index cfg va =
       tagged_tlb_entry_5 cfg pdid' asid' (va_vpn cfg va) pteb' ppn'"
    by (simp add: nth_insert_tlb)
  have "fst (lookup cfg pdid' asid' va ?t) =
           (if unat asid' < 2 ^ asid_bits cfg \<and> unat pdid' < 2 ^ LENGTH('p)
            then Some (va_index cfg va) else None)"
    unfolding fst_lookup e
    by (simp add: tagged_tlb_entry_5_def vpn_fits take_bit_fits unat_ucast_fits conj_commute)
  moreover have "unat (ppn (?t ! va_index cfg va)) = unat ppn' mod 2 ^ ppn_bits cfg"
    unfolding e by (simp add: tagged_tlb_entry_5_def unat_take_bit_mod)
  moreover have "unat (pteb (?t ! va_index cfg va)) = unat pteb' mod 2 ^ page_shift cfg"
    unfolding e by (simp add: tagged_tlb_entry_5_def pte_bits_def unat_take_bit_mod)
  ultimately show ?thesis by simp
qed

text \<open>
  The round trip of page \<open>0x1000\<close> for \<^verbatim>\<open>pdid\<close> 1, \<^verbatim>\<open>asid\<close> 7, with values
  that fit their fields.
\<close>

theorem insert_lookup_roundtrip_witness:
  "ispow2 (tlb_size rv32_4) \<and> length (tagged_tlb rv32_4 :: tlb32) = tlb_size rv32_4 \<and>
   fst (lookup rv32_4 1 7 0x1000
         (insert_tlb rv32_4 1 7 0x1000 7 0x55 (tagged_tlb rv32_4 :: tlb32))) = Some 1 \<and>
   unat (ppn (insert_tlb rv32_4 1 7 0x1000 7 0x55 (tagged_tlb rv32_4 :: tlb32) ! 1)) = 0x55 \<and>
   unat (pteb (insert_tlb rv32_4 1 7 0x1000 7 0x55 (tagged_tlb rv32_4 :: tlb32) ! 1)) = 7"
proof -
  have p: "ispow2 (tlb_size rv32_4)" by code_simp
  have l: "length (tagged_tlb rv32_4 :: tlb32) = tlb_size rv32_4" by simp
  have i: "va_index rv32_4 (0x1000 :: 32 word) = 1" by code_simp
  have a: "unat (7 :: 32 word) < 2 ^ asid_bits rv32_4" by code_simp
  have m: "unat (0x55 :: 32 word) mod 2 ^ ppn_bits rv32_4 = 0x55"
    "unat (7 :: 32 word) mod 2 ^ page_shift rv32_4 = 7" by (simp_all add: rv32_4_def)
  from insert_lookup_roundtrip [OF p l, where pdid' = 1 and asid' = 7 and va = "0x1000"
      and pteb' = 7 and ppn' = "0x55"] p l i a m
  show ?thesis by simp
qed

text \<open>
  The claim as stated fails where an argument does not fit its field: with ten bits of
  \<^verbatim>\<open>asid\<close> the value \<open>0x400\<close> is stored as 0 and the lookup misses; with 22 bits of
  \<^verbatim>\<open>ppn\<close> the value \<open>0x400055\<close> is stored as \<open>0x55\<close>; with 12 bits of
  \<^verbatim>\<open>pteb\<close> the value \<open>0x1007\<close> is stored as 7.
\<close>

theorem insert_lookup_roundtrip_counterexample:
  "fst (lookup rv32_4 1 0x400 0x1000
         (insert_tlb rv32_4 1 0x400 0x1000 7 0x55 (tagged_tlb rv32_4 :: tlb32))) = None \<and>
   ppn (insert_tlb rv32_4 1 7 0x1000 7 0x400055 (tagged_tlb rv32_4 :: tlb32) ! 1) \<noteq> 0x400055 \<and>
   pteb (insert_tlb rv32_4 1 7 0x1000 0x1007 0x55 (tagged_tlb rv32_4 :: tlb32) ! 1) \<noteq> 0x1007"
  by code_simp

text \<open>
  Claim C2 (the sentinel is not a hit), as amended. When the slot of the address holds the
  default-constructed entry, \<^verbatim>\<open>lookup(pdid, asid, va)\<close> misses, except for the one key
  that the sentinel itself carries: \<^verbatim>\<open>pdid\<close> zero, \<^verbatim>\<open>asid = asid_limit\<close> and
  \<^verbatim>\<open>va >> page_shift = vpn_limit\<close>. For that key the sentinel is returned as a hit.
\<close>

theorem lookup_sentinel:
  fixes t :: "('a::len, 'p::len, 'm::len) tagged_tlb"
  assumes "t ! va_index cfg va = tagged_tlb_entry_0 cfg"
  shows "fst (lookup cfg pdid' asid' va t) =
           (if pdid' = 0 \<and> asid' = asid_limit cfg \<and> va_vpn cfg va = vpn_limit cfg
            then Some (va_index cfg va) else None)"
  by (rule lookup_sentinel_iff [OF assms])

text \<open>
  On a new cache the lookup of page \<open>0x2000\<close> misses.
\<close>

theorem lookup_sentinel_witness:
  "(tagged_tlb rv32_4 :: tlb32) ! va_index rv32_4 (0x2000 :: 32 word) = tagged_tlb_entry_0 rv32_4 \<and>
   fst (lookup rv32_4 0 0x3FF 0x2000 (tagged_tlb rv32_4 :: tlb32)) = None"
proof -
  have s: "(tagged_tlb rv32_4 :: tlb32) ! va_index rv32_4 (0x2000 :: 32 word) =
           tagged_tlb_entry_0 rv32_4" by code_simp
  have n: "va_vpn rv32_4 (0x2000 :: 32 word) \<noteq> vpn_limit rv32_4" by code_simp
  from lookup_sentinel [OF s, where pdid' = 0 and asid' = "0x3FF"] s n
  show ?thesis by simp
qed

text \<open>
  The claim as stated fails on a new cache: the last slot holds the sentinel, and the
  lookup of the last page with \<^verbatim>\<open>pdid\<close> 0 and \<^verbatim>\<open>asid\<close> \<open>0x3FF\<close> returns it.
\<close>

theorem lookup_sentinel_counterexample:
  "(tagged_tlb rv32_4 :: tlb32) ! va_index rv32_4 (0xFFFFF000 :: 32 word) = tagged_tlb_entry_0 rv32_4 \<and>
   fst (lookup rv32_4 0 0x3FF 0xFFFFF000 (tagged_tlb rv32_4 :: tlb32)) = Some 3"
  by code_simp

text \<open>
  Claim C3 (after \<^verbatim>\<open>flush()\<close> a lookup misses), as amended. After \<^verbatim>\<open>flush()\<close> every
  lookup misses, whether it hit before or not, except the lookup of the key of the
  sentinel (\<^verbatim>\<open>pdid\<close> zero, \<^verbatim>\<open>asid = asid_limit\<close>, \<^verbatim>\<open>va >> page_shift = vpn_limit\<close>),
  which hits on the sentinel.
\<close>

theorem lookup_after_flush:
  fixes t :: "('a::len, 'p::len, 'm::len) tagged_tlb"
  assumes "ispow2 (tlb_size cfg)" and "length t = tlb_size cfg"
  shows "fst (lookup cfg pdid' asid' va (flush cfg t)) =
           (if pdid' = 0 \<and> asid' = asid_limit cfg \<and> va_vpn cfg va = vpn_limit cfg
            then Some (va_index cfg va) else None)"
proof -
  have "flush cfg t ! va_index cfg va = tagged_tlb_entry_0 cfg"
    using index_lt_size [OF assms(1), of "va_vpn cfg va"] assms(2) by (simp add: nth_flush)
  then show ?thesis by (rule lookup_sentinel_iff)
qed

text \<open>
  A lookup that hits after an insert misses after the flush.
\<close>

theorem lookup_after_flush_witness:
  "ispow2 (tlb_size rv32_4) \<and>
   length (insert_tlb rv32_4 1 7 0x1000 7 0x55 (tagged_tlb rv32_4 :: tlb32)) = tlb_size rv32_4 \<and>
   fst (lookup rv32_4 1 7 0x1000
         (insert_tlb rv32_4 1 7 0x1000 7 0x55 (tagged_tlb rv32_4 :: tlb32))) = Some 1 \<and>
   fst (lookup rv32_4 1 7 0x1000
         (flush rv32_4 (insert_tlb rv32_4 1 7 0x1000 7 0x55 (tagged_tlb rv32_4 :: tlb32)))) = None"
proof -
  have p: "ispow2 (tlb_size rv32_4)" by code_simp
  have l: "length (insert_tlb rv32_4 1 7 0x1000 7 0x55 (tagged_tlb rv32_4 :: tlb32)) =
           tlb_size rv32_4" by simp
  have h: "fst (lookup rv32_4 1 7 0x1000
         (insert_tlb rv32_4 1 7 0x1000 7 0x55 (tagged_tlb rv32_4 :: tlb32))) = Some 1"
    by code_simp
  from lookup_after_flush [OF p l, where pdid' = 1 and asid' = 7 and va = "0x1000"] p l h
  show ?thesis by simp
qed

text \<open>
  The claim as stated fails for the key of the sentinel: the mapping of the last page
  for \<^verbatim>\<open>pdid\<close> 0 and \<^verbatim>\<open>asid\<close> \<open>0x3FF\<close> hits after its insert and still hits after
  \<^verbatim>\<open>flush()\<close>.
\<close>

theorem lookup_after_flush_counterexample:
  "fst (lookup rv32_4 0 0x3FF 0xFFFFF000
         (insert_tlb rv32_4 0 0x3FF 0xFFFFF000 7 0x55 (tagged_tlb rv32_4 :: tlb32))) = Some 3 \<and>
   fst (lookup rv32_4 0 0x3FF 0xFFFFF000
         (flush rv32_4
           (insert_tlb rv32_4 0 0x3FF 0xFFFFF000 7 0x55 (tagged_tlb rv32_4 :: tlb32)))) = Some 3"
  by code_simp

text \<open>
  Claim C4 (\<^verbatim>\<open>flush(asid_x)\<close>), as amended. The call keeps the size of the array, resets
  every entry whose \<^verbatim>\<open>asid\<close> is \<open>asid_x\<close> to the sentinel and leaves every other
  entry as it was. So a lookup with \<open>asid_x\<close> misses afterwards, unless its key is
  the key of the sentinel (\<^verbatim>\<open>pdid\<close> zero, \<open>asid_x = asid_limit\<close>,
  \<^verbatim>\<open>va >> page_shift = vpn_limit\<close>); and a lookup with another \<^verbatim>\<open>asid\<close> that hit before
  hits afterwards, on the same unchanged entry.
\<close>

theorem flush_asid_frame:
  fixes t :: "('a::len, 'p::len, 'm::len) tagged_tlb"
  assumes "ispow2 (tlb_size cfg)" and "length t = tlb_size cfg"
  shows "length (flush_asid cfg asid_x t) = length t \<and>
         (i < tlb_size cfg \<and> asid (t ! i) = asid_x \<longrightarrow>
            flush_asid cfg asid_x t ! i = tagged_tlb_entry_0 cfg) \<and>
         (j < tlb_size cfg \<and> asid (t ! j) \<noteq> asid_x \<longrightarrow>
            flush_asid cfg asid_x t ! j = t ! j) \<and>
         (\<not> (pdid_a = 0 \<and> asid_x = asid_limit cfg \<and> va_vpn cfg va_a = vpn_limit cfg) \<longrightarrow>
            fst (lookup cfg pdid_a asid_x va_a (flush_asid cfg asid_x t)) = None) \<and>
         (asid_b \<noteq> asid_x \<and> fst (lookup cfg pdid_b asid_b va_b t) = Some k \<longrightarrow>
            fst (lookup cfg pdid_b asid_b va_b (flush_asid cfg asid_x t)) = Some k \<and>
            flush_asid cfg asid_x t ! k = t ! k)"
proof -
  have entries: "flush_asid cfg asid_x t ! n =
      (if asid (t ! n) = asid_x then tagged_tlb_entry_0 cfg else t ! n)"
    if "n < tlb_size cfg" for n
    using that assms(2) by (simp add: nth_flush_asid)
  have i1: "va_index cfg va_a < tlb_size cfg" and i2: "va_index cfg va_b < tlb_size cfg"
    by (rule index_lt_size [OF assms(1)])+
  have miss: "fst (lookup cfg pdid_a asid_x va_a (flush_asid cfg asid_x t)) = None"
    if "\<not> (pdid_a = 0 \<and> asid_x = asid_limit cfg \<and> va_vpn cfg va_a = vpn_limit cfg)"
  proof (cases "asid (t ! va_index cfg va_a) = asid_x")
    case True
    then have "flush_asid cfg asid_x t ! va_index cfg va_a = tagged_tlb_entry_0 cfg"
      by (simp add: entries [OF i1])
    then show ?thesis using that by (simp add: lookup_sentinel_iff)
  next
    case False
    then have "flush_asid cfg asid_x t ! va_index cfg va_a = t ! va_index cfg va_a"
      by (simp add: entries [OF i1])
    with False show ?thesis by (simp add: fst_lookup)
  qed
  have keep: "fst (lookup cfg pdid_b asid_b va_b (flush_asid cfg asid_x t)) = Some k \<and>
              flush_asid cfg asid_x t ! k = t ! k"
    if "asid_b \<noteq> asid_x" and "fst (lookup cfg pdid_b asid_b va_b t) = Some k"
  proof -
    from that(2) have k: "k = va_index cfg va_b" and a: "asid (t ! va_index cfg va_b) = asid_b"
      by (auto simp add: fst_lookup split: if_splits)
    from a that(1) have "flush_asid cfg asid_x t ! va_index cfg va_b = t ! va_index cfg va_b"
      by (simp add: entries [OF i2])
    with that(2) k show ?thesis by (simp add: fst_lookup)
  qed
  from entries miss keep show ?thesis by simp
qed

text \<open>
  Two pages of the address spaces 7 and 5: \<^verbatim>\<open>flush(7)\<close> resets the first and keeps
  the second.
\<close>

theorem flush_asid_frame_witness:
  "ispow2 (tlb_size rv32_4) \<and> length two_pages = tlb_size rv32_4 \<and>
   1 < tlb_size rv32_4 \<and> asid (two_pages ! 1) = 7 \<and>
   flush_asid rv32_4 7 two_pages ! 1 = tagged_tlb_entry_0 rv32_4 \<and>
   2 < tlb_size rv32_4 \<and> asid (two_pages ! 2) \<noteq> 7 \<and>
   flush_asid rv32_4 7 two_pages ! 2 = two_pages ! 2 \<and>
   fst (lookup rv32_4 1 7 0x1000 two_pages) = Some 1 \<and> (1 :: 32 word) \<noteq> 0 \<and>
   fst (lookup rv32_4 1 7 0x1000 (flush_asid rv32_4 7 two_pages)) = None \<and>
   fst (lookup rv32_4 2 5 0x2000 two_pages) = Some 2 \<and>
   fst (lookup rv32_4 2 5 0x2000 (flush_asid rv32_4 7 two_pages)) = Some 2"
proof -
  have p: "ispow2 (tlb_size rv32_4)" by code_simp
  have l: "length two_pages = tlb_size rv32_4" by (simp add: two_pages_def)
  have h: "1 < tlb_size rv32_4" "asid (two_pages ! 1) = 7"
    "2 < tlb_size rv32_4" "asid (two_pages ! 2) \<noteq> 7"
    "fst (lookup rv32_4 1 7 0x1000 two_pages) = Some 1"
    "fst (lookup rv32_4 2 5 0x2000 two_pages) = Some 2"
    by code_simp+
  from flush_asid_frame [OF p l, where asid_x = 7 and i = 1 and j = 2 and pdid_a = 1
      and va_a = "0x1000" and pdid_b = 2 and asid_b = 5 and va_b = "0x2000" and k = 2] p l h
  show ?thesis by simp
qed

text \<open>
  The claim as stated fails where \<open>asid_x\<close> is \<^verbatim>\<open>asid_limit\<close>: the mapping of the
  last page for \<^verbatim>\<open>pdid\<close> 0 and \<^verbatim>\<open>asid\<close> \<open>0x3FF\<close> is reset by \<^verbatim>\<open>flush(0x3FF)\<close>,
  and the lookup of its key hits on the sentinel that replaced it.
\<close>

theorem flush_asid_frame_counterexample:
  "asid (insert_tlb rv32_4 0 0x3FF 0xFFFFF000 7 0x55 (tagged_tlb rv32_4 :: tlb32) ! 3) = 0x3FF \<and>
   fst (lookup rv32_4 0 0x3FF 0xFFFFF000
         (insert_tlb rv32_4 0 0x3FF 0xFFFFF000 7 0x55 (tagged_tlb rv32_4 :: tlb32))) = Some 3 \<and>
   fst (lookup rv32_4 0 0x3FF 0xFFFFF000
         (flush_asid rv32_4 0x3FF
           (insert_tlb rv32_4 0 0x3FF 0xFFFFF000 7 0x55 (tagged_tlb rv32_4 :: tlb32)))) = Some 3"
  by code_simp

text \<open>
  Claim C5 (eviction by overwrite). For two addresses with different page numbers and
  the same index, after an insert for the first and an insert for the second, with any
  \<^verbatim>\<open>pdid\<close>, \<^verbatim>\<open>asid\<close>, \<^verbatim>\<open>pteb\<close> and \<^verbatim>\<open>ppn\<close>, every lookup of the first address
  misses.
\<close>

theorem insert_evicts:
  assumes "ispow2 (tlb_size cfg)" and "length t = tlb_size cfg"
    and "va_vpn cfg va1 \<noteq> va_vpn cfg va2"
    and "va_index cfg va1 = va_index cfg va2"
  shows "fst (lookup cfg p a va1
           (insert_tlb cfg p2 a2 va2 b2 n2 (insert_tlb cfg p1 a1 va1 b1 n1 t))) = None"
proof -
  have "va_index cfg va2 < length (insert_tlb cfg p1 a1 va1 b1 n1 t)"
    using index_lt_size [OF assms(1)] assms(2) by simp
  then have "vpn (insert_tlb cfg p2 a2 va2 b2 n2 (insert_tlb cfg p1 a1 va1 b1 n1 t)
               ! va_index cfg va1) = va_vpn cfg va2"
    by (simp add: nth_insert_tlb assms(4) tagged_tlb_entry_5_def vpn_fits)
  with assms(3) show ?thesis
    by (simp add: fst_lookup)
qed

text \<open>
  The pages \<open>0x1000\<close> and \<open>0x5000\<close> share slot 1 of four.
\<close>

theorem insert_evicts_witness:
  "ispow2 (tlb_size rv32_4) \<and> length (tagged_tlb rv32_4 :: tlb32) = tlb_size rv32_4 \<and>
   va_vpn rv32_4 (0x1000 :: 32 word) \<noteq> va_vpn rv32_4 0x5000 \<and>
   va_index rv32_4 (0x1000 :: 32 word) = va_index rv32_4 (0x5000 :: 32 word) \<and>
   fst (lookup rv32_4 1 7 0x1000
     (insert_tlb rv32_4 1 7 0x5000 3 0x99
       (insert_tlb rv32_4 1 7 0x1000 7 0x55 (tagged_tlb rv32_4 :: tlb32)))) = None"
proof -
  have p: "ispow2 (tlb_size rv32_4)" by code_simp
  have l: "length (tagged_tlb rv32_4 :: tlb32) = tlb_size rv32_4" by simp
  have v: "va_vpn rv32_4 (0x1000 :: 32 word) \<noteq> va_vpn rv32_4 0x5000" by code_simp
  have i: "va_index rv32_4 (0x1000 :: 32 word) = va_index rv32_4 (0x5000 :: 32 word)"
    by code_simp
  from insert_evicts [OF p l v i, where p = 1 and a = 7 and ?p1.0 = 1 and ?a1.0 = 7
      and ?b1.0 = 7 and ?n1.0 = "0x55" and ?p2.0 = 1 and ?a2.0 = 7 and ?b2.0 = 3
      and ?n2.0 = "0x99"] p l v i
  show ?thesis by blast
qed

text \<open>
  Claim C6 (direct-mapped placement). In every state reached from the constructor by
  calls of \<^verbatim>\<open>insert\<close>, \<^verbatim>\<open>flush()\<close> and \<^verbatim>\<open>flush(asid)\<close>, an entry at index \<open>i\<close>
  that is not the sentinel has \<^verbatim>\<open>(vpn & mask) == i\<close>.
\<close>

theorem placement_invariant:
  fixes t :: "('a::len, 'p::len, 'm::len) tagged_tlb"
  assumes "ispow2 (tlb_size cfg)" and "reachable cfg t"
    and "i < length t" and "t ! i \<noteq> tagged_tlb_entry_0 cfg"
  shows "unat (vpn (t ! i) AND mask_tlb cfg) = i"
  using assms(2,3,4)
proof (induction arbitrary: i rule: reachable.induct)
  case r_new
  then show ?case by (simp add: nth_tagged_tlb)
next
  case (r_insert t pdid' asid' va pteb' ppn')
  from r_insert.prems(1) have i: "i < length t" by simp
  show ?case
  proof (cases "i = va_index cfg va")
    case True
    with i have "vpn (insert_tlb cfg pdid' asid' va pteb' ppn' t ! i) = va_vpn cfg va"
      by (simp add: nth_insert_tlb tagged_tlb_entry_5_def vpn_fits)
    with True show ?thesis by simp
  next
    case False
    with i r_insert.prems(2) have "t ! i \<noteq> tagged_tlb_entry_0 cfg"
      by (simp add: nth_insert_tlb)
    with r_insert.IH i have "unat (vpn (t ! i) AND mask_tlb cfg) = i" by simp
    with False i show ?thesis by (simp add: nth_insert_tlb)
  qed
next
  case (r_flush t)
  from r_flush.hyps have "length t = tlb_size cfg" by (rule reachable_length)
  with r_flush.prems show ?case by (simp add: nth_flush)
next
  case (r_flush_asid t asid')
  from r_flush_asid.hyps have l: "length t = tlb_size cfg" by (rule reachable_length)
  with r_flush_asid.prems(1) have i: "i < tlb_size cfg" by simp
  show ?case
  proof (cases "asid (t ! i) = asid'")
    case True
    with l i r_flush_asid.prems(2) show ?thesis by (simp add: nth_flush_asid)
  next
    case False
    with l i have e: "flush_asid cfg asid' t ! i = t ! i" by (simp add: nth_flush_asid)
    with r_flush_asid.prems(2) have "t ! i \<noteq> tagged_tlb_entry_0 cfg" by simp
    with r_flush_asid.IH i l have "unat (vpn (t ! i) AND mask_tlb cfg) = i" by simp
    with e show ?thesis by simp
  qed
qed

text \<open>
  After the insert of page \<open>0x5000\<close>, slot 1 holds page number 5.
\<close>

theorem placement_invariant_witness:
  "ispow2 (tlb_size rv32_4) \<and>
   reachable rv32_4 (insert_tlb rv32_4 1 7 0x5000 7 0x55 (tagged_tlb rv32_4 :: tlb32)) \<and>
   1 < length (insert_tlb rv32_4 1 7 0x5000 7 0x55 (tagged_tlb rv32_4 :: tlb32)) \<and>
   insert_tlb rv32_4 1 7 0x5000 7 0x55 (tagged_tlb rv32_4 :: tlb32) ! 1 \<noteq>
     tagged_tlb_entry_0 rv32_4 \<and>
   unat (vpn (insert_tlb rv32_4 1 7 0x5000 7 0x55 (tagged_tlb rv32_4 :: tlb32) ! 1)
           AND mask_tlb rv32_4) = 1"
proof -
  have p: "ispow2 (tlb_size rv32_4)" by code_simp
  have r: "reachable rv32_4 (insert_tlb rv32_4 1 7 0x5000 7 0x55 (tagged_tlb rv32_4 :: tlb32))"
    by (rule r_insert) (rule r_new)
  have i: "1 < length (insert_tlb rv32_4 1 7 0x5000 7 0x55 (tagged_tlb rv32_4 :: tlb32))"
    by (simp add: rv32_4_def)
  have n: "insert_tlb rv32_4 1 7 0x5000 7 0x55 (tagged_tlb rv32_4 :: tlb32) ! 1 \<noteq>
     tagged_tlb_entry_0 rv32_4" by code_simp
  from placement_invariant [OF p r i n] p r i n
  show ?thesis by blast
qed

text \<open>
  Claim C7 (construction wraps). The constructor with arguments is a total function; it
  stores \<^verbatim>\<open>asid\<close>, \<^verbatim>\<open>vpn\<close>, \<^verbatim>\<open>pteb\<close> and \<^verbatim>\<open>ppn\<close> modulo two to the power of
  \<^verbatim>\<open>asid_bits\<close>, \<^verbatim>\<open>vpn_bits\<close>, \<^verbatim>\<open>page_shift\<close> and \<^verbatim>\<open>ppn_bits\<close>, and sets \<^verbatim>\<open>pma\<close>
  to zero.
\<close>

theorem entry_construction_wraps:
  "unat (asid (tagged_tlb_entry_5 cfg pdid' asid' vpn' pteb' ppn'
           :: ('a::len, 'p::len, 'm::len) tagged_tlb_entry)) = unat asid' mod 2 ^ asid_bits cfg \<and>
   unat (vpn (tagged_tlb_entry_5 cfg pdid' asid' vpn' pteb' ppn'
           :: ('a, 'p, 'm) tagged_tlb_entry)) = unat vpn' mod 2 ^ vpn_bits TYPE('a) cfg \<and>
   unat (pteb (tagged_tlb_entry_5 cfg pdid' asid' vpn' pteb' ppn'
           :: ('a, 'p, 'm) tagged_tlb_entry)) = unat pteb' mod 2 ^ page_shift cfg \<and>
   unat (ppn (tagged_tlb_entry_5 cfg pdid' asid' vpn' pteb' ppn'
           :: ('a, 'p, 'm) tagged_tlb_entry)) = unat ppn' mod 2 ^ ppn_bits cfg \<and>
   pma (tagged_tlb_entry_5 cfg pdid' asid' vpn' pteb' ppn'
           :: ('a, 'p, 'm) tagged_tlb_entry) = 0"
  by (simp add: tagged_tlb_entry_5_def pte_bits_def unat_take_bit_mod)

text \<open>
  Claim C8 (the concrete scenario). Four entries, pages of \<open>2 ^ 12\<close> bytes, and
  fields wide enough for the values of the scenario. The mask is 3. The insert of
  \<open>(1, 7, 0x1000, 0x7, 0x55)\<close> into a new cache stores page number 1 at index 1 and
  \<^verbatim>\<open>lookup(1, 7, 0x1000)\<close> hits with \<^verbatim>\<open>ppn\<close> \<open>0x55\<close>; the insert of
  \<open>(1, 7, 0x5000, 0x3, 0x99)\<close> stores page number 5 at index 1, after which
  \<^verbatim>\<open>lookup(1, 7, 0x1000)\<close> misses and \<^verbatim>\<open>lookup(1, 7, 0x5000)\<close> hits with \<^verbatim>\<open>ppn\<close>
  \<open>0x99\<close>.
\<close>

theorem concrete_scenario:
  assumes "tlb_size cfg = 4" and "page_shift cfg = 12"
    and "3 \<le> asid_bits cfg" and "8 \<le> ppn_bits cfg" and "15 \<le> LENGTH('a::len)"
  shows "let t1 = insert_tlb cfg 1 7 0x1000 7 0x55
                    (tagged_tlb cfg :: ('a, 'p::len, 'm::len) tagged_tlb);
             t2 = insert_tlb cfg 1 7 0x5000 3 0x99 t1
         in mask_tlb cfg = (3 :: 'a word) \<and>
            va_vpn cfg (0x1000 :: 'a word) = 1 \<and> va_index cfg (0x1000 :: 'a word) = 1 \<and>
            vpn (t1 ! 1) = 1 \<and>
            fst (lookup cfg 1 7 0x1000 t1) = Some 1 \<and> ppn (t1 ! 1) = 0x55 \<and>
            va_vpn cfg (0x5000 :: 'a word) = 5 \<and> va_index cfg (0x5000 :: 'a word) = 1 \<and>
            vpn (t2 ! 1) = 5 \<and>
            fst (lookup cfg 1 7 0x1000 t2) = None \<and>
            fst (lookup cfg 1 7 0x5000 t2) = Some 1 \<and> ppn (t2 ! 1) = 0x99"
proof -
  let ?t0 = "tagged_tlb cfg :: ('a, 'p, 'm) tagged_tlb"
  let ?t1 = "insert_tlb cfg 1 7 0x1000 7 0x55 ?t0"
  let ?t2 = "insert_tlb cfg 1 7 0x5000 3 0x99 ?t1"
  have "(2::nat) ^ 15 \<le> 2 ^ LENGTH('a)"
    using assms(5) by (rule power_increasing) simp
  then have big: "32768 \<le> (2::nat) ^ LENGTH('a)" by simp
  have u: "unat (0x1000 :: 'a word) = 0x1000" "unat (0x5000 :: 'a word) = 0x5000"
    "unat (5 :: 'a word) = 5" "unat (7 :: 'a word) = 7"
    "unat (0x55 :: 'a word) = 0x55" "unat (0x99 :: 'a word) = 0x99"
    using big by (simp_all add: take_bit_nat_eq_self)
  have msk: "mask_tlb cfg = (3 :: 'a word)"
    by (simp add: mask_tlb_def shift_tlb_def size_tlb_def assms(1) ctz_pow2_4 ull_ones_mask
        mask_eq_exp_minus_1)
  have "unat (va_vpn cfg (0x1000 :: 'a word)) = 1"
    unfolding assms(2) unat_drop_bit_eq u by (simp add: drop_bit_eq_div)
  then have v1: "va_vpn cfg (0x1000 :: 'a word) = 1"
    by (simp add: word_unat_eq_iff)
  have "unat (va_vpn cfg (0x5000 :: 'a word)) = 5"
    unfolding assms(2) unat_drop_bit_eq u by (simp add: drop_bit_eq_div)
  with big have v5: "va_vpn cfg (0x5000 :: 'a word) = 5"
    by (simp add: word_unat_eq_iff take_bit_nat_eq_self)
  have ne: "(1 :: 'a word) \<noteq> 5"
    using big by (simp add: word_unat_eq_iff take_bit_nat_eq_self)
  have i1: "va_index cfg (0x1000 :: 'a word) = 1"
    unfolding v1 msk by simp
  have "(5 :: 'a word) AND 3 = 1" by simp
  then have i5: "va_index cfg (0x5000 :: 'a word) = 1"
    unfolding v5 msk by simp
  have "(2::nat) ^ 3 \<le> 2 ^ asid_bits cfg"
    using assms(3) by (rule power_increasing) simp
  with big have a7: "take_bit (asid_bits cfg) (7 :: 'a word) = 7"
    by (simp add: take_bit_fits take_bit_nat_eq_self)
  have "(2::nat) ^ 8 \<le> 2 ^ ppn_bits cfg"
    using assms(4) by (rule power_increasing) simp
  with big have p: "take_bit (ppn_bits cfg) (0x55 :: 'a word) = 0x55"
    "take_bit (ppn_bits cfg) (0x99 :: 'a word) = 0x99"
    by (simp_all add: take_bit_fits take_bit_nat_eq_self)
  have e1: "?t1 ! 1 = tagged_tlb_entry_5 cfg 1 7 (va_vpn cfg 0x1000) 7 0x55"
    using i1 by (simp add: nth_insert_tlb assms(1))
  have e2: "?t2 ! 1 = tagged_tlb_entry_5 cfg 1 7 (va_vpn cfg 0x5000) 3 0x99"
    using i5 by (simp add: nth_insert_tlb assms(1))
  have "vpn (?t1 ! 1) = va_vpn cfg 0x1000"
    unfolding e1 by (simp add: tagged_tlb_entry_5_def vpn_fits)
  then have g1: "vpn (?t1 ! 1) = 1"
    by (simp only: v1)
  have f1: "asid (?t1 ! 1) = 7" "unat (pdid (?t1 ! 1)) = 1" "ppn (?t1 ! 1) = 0x55"
    unfolding e1 by (simp_all add: tagged_tlb_entry_5_def a7 p)
  have "vpn (?t2 ! 1) = va_vpn cfg 0x5000"
    unfolding e2 by (simp add: tagged_tlb_entry_5_def vpn_fits)
  then have g2: "vpn (?t2 ! 1) = 5"
    by (simp only: v5)
  have f2: "asid (?t2 ! 1) = 7" "unat (pdid (?t2 ! 1)) = 1" "ppn (?t2 ! 1) = 0x99"
    unfolding e2 by (simp_all add: tagged_tlb_entry_5_def a7 p)
  have l1: "fst (lookup cfg 1 7 0x1000 ?t1) = Some 1"
    unfolding fst_lookup i1 using f1 g1 by (simp add: v1)
  have l2: "fst (lookup cfg 1 7 0x1000 ?t2) = None"
    unfolding fst_lookup i1 using ne f2 g2 by (simp add: v1)
  have l3: "fst (lookup cfg 1 7 0x5000 ?t2) = Some 1"
    unfolding fst_lookup i5 using f2 g2 by (simp add: v5)
  show ?thesis
    unfolding Let_def using msk v1 i1 g1 l1 f1(3) v5 i5 g2 l2 l3 f2(3) by blast
qed

text \<open>
  The scenario on 32-bit addresses with \<open>10 + 22\<close> bits of \<^verbatim>\<open>asid\<close> and
  \<^verbatim>\<open>ppn\<close>.
\<close>

theorem concrete_scenario_witness:
  "tlb_size rv32_4 = 4 \<and> page_shift rv32_4 = 12 \<and> 3 \<le> asid_bits rv32_4 \<and>
   8 \<le> ppn_bits rv32_4 \<and> 15 \<le> LENGTH(32) \<and>
   fst (lookup rv32_4 1 7 0x1000
         (insert_tlb rv32_4 1 7 0x1000 7 0x55 (tagged_tlb rv32_4 :: tlb32))) = Some 1 \<and>
   fst (lookup rv32_4 1 7 0x1000
         (insert_tlb rv32_4 1 7 0x5000 3 0x99
           (insert_tlb rv32_4 1 7 0x1000 7 0x55 (tagged_tlb rv32_4 :: tlb32)))) = None \<and>
   fst (lookup rv32_4 1 7 0x5000
         (insert_tlb rv32_4 1 7 0x5000 3 0x99
           (insert_tlb rv32_4 1 7 0x1000 7 0x55 (tagged_tlb rv32_4 :: tlb32)))) = Some 1 \<and>
   ppn (insert_tlb rv32_4 1 7 0x5000 3 0x99
         (insert_tlb rv32_4 1 7 0x1000 7 0x55 (tagged_tlb rv32_4 :: tlb32)) ! 1) = 0x99"
proof -
  have h: "tlb_size rv32_4 = 4" "page_shift rv32_4 = 12" "3 \<le> asid_bits rv32_4"
    "8 \<le> ppn_bits rv32_4" "15 \<le> LENGTH(32)"
    by (simp_all add: rv32_4_def)
  from concrete_scenario [OF h, where ?'p = 32 and ?'m = 32] h
  show ?thesis by (simp add: Let_def)
qed

text \<open>
  Claim C9 (\<^verbatim>\<open>lookup\<close> is a query). The array after \<^verbatim>\<open>lookup\<close> is the array before
  it, whatever the arguments.
\<close>

theorem lookup_pure: "snd (lookup cfg pdid' asid' va t) = t"
  by (simp add: lookup_def Let_def)

text \<open>
  Claim C10 (frame of \<^verbatim>\<open>insert\<close>). The call keeps the size of the array and every
  entry at an index other than that of the address; the entry at the index is the newly
  constructed one, and its \<^verbatim>\<open>pma\<close> is zero whatever it was before.
\<close>

theorem insert_frame:
  assumes "ispow2 (tlb_size cfg)" and "length t = tlb_size cfg"
  shows "length (insert_tlb cfg pdid' asid' va pteb' ppn' t) = length t \<and>
         (j \<noteq> va_index cfg va \<longrightarrow>
            insert_tlb cfg pdid' asid' va pteb' ppn' t ! j = t ! j) \<and>
         insert_tlb cfg pdid' asid' va pteb' ppn' t ! va_index cfg va =
           tagged_tlb_entry_5 cfg pdid' asid' (va_vpn cfg va) pteb' ppn' \<and>
         pma (insert_tlb cfg pdid' asid' va pteb' ppn' t ! va_index cfg va) = 0"
proof -
  have "va_index cfg va < length t"
    using index_lt_size [OF assms(1)] assms(2) by simp
  then show ?thesis
    by (simp add: insert_tlb_def Let_def tagged_tlb_entry_5_def)
qed

text \<open>
  The insert of page \<open>0x1000\<close> leaves slot 2 alone.
\<close>

theorem insert_frame_witness:
  "ispow2 (tlb_size rv32_4) \<and> length (tagged_tlb rv32_4 :: tlb32) = tlb_size rv32_4 \<and>
   2 \<noteq> va_index rv32_4 (0x1000 :: 32 word) \<and>
   insert_tlb rv32_4 1 7 0x1000 7 0x55 (tagged_tlb rv32_4 :: tlb32) ! 2 =
     (tagged_tlb rv32_4 :: tlb32) ! 2 \<and>
   pma (insert_tlb rv32_4 1 7 0x1000 7 0x55 (tagged_tlb rv32_4 :: tlb32) ! 1) = 0"
proof -
  have p: "ispow2 (tlb_size rv32_4)" by code_simp
  have l: "length (tagged_tlb rv32_4 :: tlb32) = tlb_size rv32_4" by simp
  have i: "va_index rv32_4 (0x1000 :: 32 word) = 1" by code_simp
  from insert_frame [OF p l, where j = 2 and pdid' = 1 and asid' = 7 and va = "0x1000"
      and pteb' = 7 and ppn' = "0x55"] p l i
  show ?thesis by (simp add: tagged_tlb_entry_5_def)
qed

end
